theory Spec2Isabelle
  imports Complex_Main "HOL-Library.Sublist" "HOL-Library.Log_Nat"
begin

section \<open>Python strings\<close>

text \<open>
  A Python \<open>str\<close> is a sequence of code points. The model takes the code points
  0..255 (the Latin-1 range), one \<^typ>\<open>char\<close> each, so that \<open>len\<close> is
  \<^const>\<open>length\<close> and a character outside ASCII is a \<^typ>\<open>char\<close> above 127.
  On this range \<open>str.lower\<close>, \<open>str.strip\<close> and the class \<open>\w\<close> of the
  \<open>re\<close> module are the tables below.
\<close>

definition ord :: "char \<Rightarrow> nat" where
  "ord c = of_char c"

text \<open>\<open>\w\<close> of a \<open>str\<close> pattern: alphanumeric code points and the underscore.\<close>

definition is_word_char :: "char \<Rightarrow> bool" where
  "is_word_char c =
     (let n = ord c in
        (48 \<le> n \<and> n \<le> 57) \<or> (65 \<le> n \<and> n \<le> 90) \<or> n = 95 \<or> (97 \<le> n \<and> n \<le> 122) \<or>
        n = 170 \<or> n = 178 \<or> n = 179 \<or> n = 181 \<or> n = 185 \<or> n = 186 \<or>
        n = 188 \<or> n = 189 \<or> n = 190 \<or>
        (192 \<le> n \<and> n \<le> 214) \<or> (216 \<le> n \<and> n \<le> 246) \<or> (248 \<le> n \<and> n \<le> 255))"

definition lower_char :: "char \<Rightarrow> char" where
  "lower_char c =
     (let n = ord c in
        if (65 \<le> n \<and> n \<le> 90) \<or> (192 \<le> n \<and> n \<le> 214) \<or> (216 \<le> n \<and> n \<le> 222)
        then char_of (n + 32) else c)"

text \<open>\<open>s.lower()\<close>\<close>

definition lower :: "string \<Rightarrow> string" where
  "lower s = map lower_char s"

text \<open>the characters \<open>str.strip\<close> removes\<close>

definition is_space :: "char \<Rightarrow> bool" where
  "is_space c =
     (let n = ord c in (9 \<le> n \<and> n \<le> 13) \<or> (28 \<le> n \<and> n \<le> 32) \<or> n = 133 \<or> n = 160)"

text \<open>\<open>s.strip()\<close>\<close>

definition strip :: "string \<Rightarrow> string" where
  "strip s = rev (dropWhile is_space (rev (dropWhile is_space s)))"

text \<open>\<open>[^\x00-\x7F]\<close>\<close>

definition non_ascii :: "char \<Rightarrow> bool" where
  "non_ascii c = (127 < ord c)"

text \<open>\<open>[A-Z]\<close> and \<open>[a-z]\<close>\<close>

definition ascii_upper :: "char \<Rightarrow> bool" where
  "ascii_upper c = (65 \<le> ord c \<and> ord c \<le> 90)"

definition ascii_lower :: "char \<Rightarrow> bool" where
  "ascii_lower c = (97 \<le> ord c \<and> ord c \<le> 122)"

abbreviation NL :: char where
  "NL \<equiv> CHR 0x0A"

text \<open>\<open>s.split(d)\<close> for a separator of one character: never empty.\<close>

fun split_on :: "char \<Rightarrow> string \<Rightarrow> string list" where
  "split_on d [] = [Nil]"
| "split_on d (c # cs) =
     (if c = d then [] # split_on d cs
      else (case split_on d cs of
              [] \<Rightarrow> [c] # []
            | piece # pieces \<Rightarrow> (c # piece) # pieces))"

text \<open>\<open>sep.join(xs)\<close>\<close>

fun join :: "string \<Rightarrow> string list \<Rightarrow> string" where
  "join sep [] = []"
| "join sep [x] = x"
| "join sep (x # y # ys) = x @ sep @ join sep (y # ys)"

text \<open>\<open>sub in s\<close>\<close>

fun contains :: "string \<Rightarrow> string \<Rightarrow> bool" where
  "contains sub [] = (sub = [])"
| "contains sub (c # cs) = (prefix sub (c # cs) \<or> contains sub cs)"

subsection \<open>The regular expressions of the analyzer\<close>

text \<open>
  \<open>\b\<close> holds between two neighbouring positions when exactly one of them is a word
  character; the positions before the first and after the last character count as
  non-word.
\<close>

fun word_at :: "char option \<Rightarrow> bool" where
  "word_at None = False"
| "word_at (Some c) = is_word_char c"

definition boundary :: "char option \<Rightarrow> char option \<Rightarrow> bool" where
  "boundary a b = (word_at a \<noteq> word_at b)"

fun first_char :: "string \<Rightarrow> char option" where
  "first_char [] = None"
| "first_char (c # cs) = Some c"

fun last_char :: "char option \<Rightarrow> string \<Rightarrow> char option" where
  "last_char prev [] = prev"
| "last_char prev (c # cs) = last_char (Some c) cs"

text \<open>
  \<open>\b\<close>, the literal \<open>lit\<close>, \<open>\b\<close>, matched at the start of \<open>rest\<close>, the character
  before it being \<open>prev\<close>.
\<close>

definition match_word_here :: "char option \<Rightarrow> string \<Rightarrow> string \<Rightarrow> bool" where
  "match_word_here prev lit rest =
     (boundary prev (first_char rest) \<and> prefix lit rest \<and>
      boundary (last_char prev lit) (first_char (drop (length lit) rest)))"

fun search_from :: "char option \<Rightarrow> string \<Rightarrow> string \<Rightarrow> bool" where
  "search_from prev lit [] = match_word_here prev lit []"
| "search_from prev lit (c # cs) =
     (match_word_here prev lit (c # cs) \<or> search_from (Some c) lit cs)"

text \<open>\<open>re.search(r'\b' + re.escape(lit) + r'\b', s)\<close> finds a match\<close>

definition search_word :: "string \<Rightarrow> string \<Rightarrow> bool" where
  "search_word lit s = search_from None lit s"

text \<open>\<open>re.search(r'\b(w1|...|wn)\b', s)\<close> finds a match\<close>

definition search_words :: "string list \<Rightarrow> string \<Rightarrow> bool" where
  "search_words alts s = list_ex (\<lambda>w. search_word w s) alts"

text \<open>two neighbouring characters, the first in \<open>P\<close> and the second in \<open>Q\<close>\<close>

fun adjacent :: "(char \<Rightarrow> bool) \<Rightarrow> (char \<Rightarrow> bool) \<Rightarrow> string \<Rightarrow> bool" where
  "adjacent P Q (a # b # cs) = ((P a \<and> Q b) \<or> adjacent P Q (b # cs))"
| "adjacent P Q cs = False"

section \<open>Python floats\<close>

text \<open>
  A \<open>float\<close> is an IEEE 754 double, modelled by the rational it denotes. \<open>fl64\<close>
  rounds a rational to the nearest double, ties to the even significand (53 bits, least
  exponent \<open>-1074\<close>); magnitudes of \<open>2 ^ 1024\<close> and more, where Python overflows,
  are outside the model.
\<close>

definition round_half_even :: "rat \<Rightarrow> int" where
  "round_half_even x =
     (let f = \<lfloor>x\<rfloor>; d = x - of_int f
      in if d < 1 / 2 then f else if 1 / 2 < d then f + 1 else if even f then f else f + 1)"

text \<open>\<open>\<lfloor>log\<^sub>2 x\<rfloor>\<close> of a positive rational\<close>

definition ilog2 :: "rat \<Rightarrow> int" where
  "ilog2 x =
     (let k = bitlen (fst (quotient_of x)) - bitlen (snd (quotient_of x))
      in if 2 powi k \<le> x then k else k - 1)"

definition fl64 :: "rat \<Rightarrow> rat" where
  "fl64 x =
     (if x = 0 then 0
      else let e = max (ilog2 \<bar>x\<bar> - 52) (- 1074)
           in of_int (round_half_even (x / 2 powi e)) * 2 powi e)"

text \<open>\<open>x * y\<close> on floats\<close>

definition float_mul :: "rat \<Rightarrow> rat \<Rightarrow> rat" where
  "float_mul x y = fl64 (x * y)"

text \<open>\<open>x + y\<close> on floats\<close>

definition float_add :: "rat \<Rightarrow> rat \<Rightarrow> rat" where
  "float_add x y = fl64 (x + y)"

text \<open>\<open>int(x)\<close> of a float: truncation towards zero\<close>

definition py_int :: "rat \<Rightarrow> int" where
  "py_int x = (if 0 \<le> x then \<lfloor>x\<rfloor> else \<lceil>x\<rceil>)"

section \<open>Values, exceptions and the analyzer object\<close>

datatype exn =
    AttributeError string string
  | NoLenTypeError string
  | KeyError string
  | ZeroDivisionError

text \<open>\<open>str(e)\<close>\<close>

fun exn_str :: "exn \<Rightarrow> string" where
  "exn_str (AttributeError ty a) =
     [CHR 0x27] @ ty @ [CHR 0x27] @ '' object has no attribute '' @ [CHR 0x27] @ a @ [CHR 0x27]"
| "exn_str (NoLenTypeError ty) =
     ''object of type '' @ [CHR 0x27] @ ty @ [CHR 0x27] @ '' has no len()''"
| "exn_str (KeyError k) = [CHR 0x27] @ k @ [CHR 0x27]"
| "exn_str ZeroDivisionError = ''division by zero''"

text \<open>\<open>a / b\<close> on two \<open>int\<close>s: the correctly rounded quotient\<close>

definition py_truediv :: "int \<Rightarrow> int \<Rightarrow> exn + rat" where
  "py_truediv a b = (if b = 0 then Inl ZeroDivisionError else Inr (fl64 (of_int a / of_int b)))"

datatype pyval =
    PNone
  | PInt int
  | PFloat rat
  | PStr string
  | PList "pyval list"
  | PDict "(string \<times> pyval) list"

type_synonym pydict = "(string \<times> pyval) list"

text \<open>the truth value of an object (\<open>if not text\<close>)\<close>

fun truthy :: "pyval \<Rightarrow> bool" where
  "truthy PNone = False"
| "truthy (PInt i) = (i \<noteq> 0)"
| "truthy (PFloat r) = (r \<noteq> 0)"
| "truthy (PStr s) = (s \<noteq> [])"
| "truthy (PList xs) = (xs \<noteq> [])"
| "truthy (PDict d) = (d \<noteq> [])"

text \<open>\<open>d.get(k, default)\<close>\<close>

definition dict_get :: "('k \<times> 'v) list \<Rightarrow> 'k \<Rightarrow> 'v \<Rightarrow> 'v" where
  "dict_get d k dflt = (case map_of d k of None \<Rightarrow> dflt | Some v \<Rightarrow> v)"

text \<open>\<open>k in d\<close>\<close>

definition has_key :: "('k \<times> 'v) list \<Rightarrow> 'k \<Rightarrow> bool" where
  "has_key d k = (map_of d k \<noteq> None)"

text \<open>
  The attributes the methods of \<open>ResumeAnalyzer\<close> read from \<open>self\<close>. An attribute
  that was never assigned is \<open>None\<close> here, and reading it raises \<open>AttributeError\<close>.
\<close>

record resume_analyzer =
  sections :: "(string \<times> string list) list"
  document_types :: "(string \<times> string list) list option"
  essential_sections :: "(string \<times> string list) list option"

text \<open>\<open>ResumeAnalyzer.__init__\<close>: it assigns \<open>self.sections\<close> and nothing else.\<close>

definition init :: resume_analyzer where
  "init =
     \<lparr>sections =
        [(''education'', [''education'', ''academic'', ''university'', ''college'', ''school'']),
         (''experience'', [''experience'', ''employment'', ''work'', ''job'']),
         (''skills'', [''skills'', ''technical skills'', ''competencies'', ''expertise'']),
         (''projects'', [''projects'', ''portfolio'', ''achievements'']),
         (''summary'', [''summary'', ''profile'', ''objective'', ''about''])],
      document_types = None,
      essential_sections = None\<rparr>"

section \<open>The scorers of the facade\<close>

text \<open>\<open>_calculate_ats_score\<close>\<close>

definition calculate_ats_score :: "string \<Rightarrow> int" where
  "calculate_ats_score text =
     (let score = 100;
          score = (if length text < 100 then score - 20 else score);
          score = (if \<not> search_words [''experience'', ''education'', ''skills''] (lower text)
                   then score - 15 else score);
          score = (if list_ex non_ascii text then score - 10 else score)
      in max 0 score)"

text \<open>\<open>_calculate_format_score\<close>: \<open>\n{2,}\<close> and \<open>[A-Z][a-z]+\<close>\<close>

definition calculate_format_score :: "string \<Rightarrow> int" where
  "calculate_format_score text =
     (let score = 100;
          score = (if \<not> adjacent (\<lambda>c. c = NL) (\<lambda>c. c = NL) text then score - 10 else score);
          score = (if \<not> adjacent ascii_upper ascii_lower text then score - 10 else score)
      in max 0 score)"

text \<open>\<open>_generate_suggestions\<close>\<close>

definition too_short_msg :: string where
  "too_short_msg = ''Resume appears too short. Consider adding more details about your experience and skills.''"

definition no_experience_msg :: string where
  "no_experience_msg = ''No work experience section found. Add your professional experience.''"

definition no_education_msg :: string where
  "no_education_msg = ''No education section found. Add your educational background.''"

definition no_skills_msg :: string where
  "no_skills_msg = ''No skills section found. List your technical and soft skills.''"

definition generate_suggestions :: "string \<Rightarrow> string list" where
  "generate_suggestions text =
     (let suggestions = [];
          suggestions = (if length text < 200 then suggestions @ [too_short_msg] else suggestions);
          suggestions = (if \<not> search_words [''experience'', ''work'', ''job''] (lower text)
                         then suggestions @ [no_experience_msg] else suggestions);
          suggestions = (if \<not> search_words [''education'', ''university'', ''college'', ''school'']
                                 (lower text)
                         then suggestions @ [no_education_msg] else suggestions);
          suggestions = (if \<not> search_words [''skills'', ''expertise'', ''competencies''] (lower text)
                         then suggestions @ [no_skills_msg] else suggestions)
      in suggestions)"

text \<open>\<open>_calculate_section_score\<close>\<close>

definition section_present :: "string \<Rightarrow> string list \<Rightarrow> bool" where
  "section_present text section_keywords =
     list_ex (\<lambda>keyword. contains keyword (lower text)) section_keywords"

definition calculate_section_score :: "resume_analyzer \<Rightarrow> string \<Rightarrow> exn + int" where
  "calculate_section_score self text =
     (let found_sections = length (filter (section_present text) (map snd (sections self)))
      in case py_truediv (int found_sections) (int (length (sections self))) of
           Inl e \<Rightarrow> Inl e
         | Inr q \<Rightarrow> Inr (py_int (float_mul q 100)))"

text \<open>
  The loop shared by the two keyword matchers: every skill is appended to
  \<open>found_skills\<close> or to \<open>missing_skills\<close>.
\<close>

fun match_loop ::
  "(string \<Rightarrow> bool) \<Rightarrow> string list \<Rightarrow> string list \<Rightarrow> string list \<Rightarrow> string list \<times> string list"
where
  "match_loop hit [] found_skills missing_skills = (found_skills, missing_skills)"
| "match_loop hit (skill # rest) found_skills missing_skills =
     (if hit skill then match_loop hit rest (found_skills @ [skill]) missing_skills
      else match_loop hit rest found_skills (missing_skills @ [skill]))"

text \<open>
  \<open>_analyze_keyword_match\<close>. \<open>job_requirements\<close> is \<open>None\<close> or a dictionary; the
  early return takes both \<open>None\<close> and the empty dictionary.
\<close>

definition whole_word_hit :: "string \<Rightarrow> string \<Rightarrow> bool" where
  "whole_word_hit text skill = search_word (lower skill) (lower text)"

definition analyze_keyword_match ::
  "string \<Rightarrow> (string \<times> string list) list option \<Rightarrow> exn + pydict"
where
  "analyze_keyword_match text job_requirements =
     (case job_requirements of
        None \<Rightarrow> Inr [(''score'', PInt 0), (''missing_skills'', PList [])]
      | Some jr \<Rightarrow>
          if jr = [] then Inr [(''score'', PInt 0), (''missing_skills'', PList [])]
          else
            let required_skills = dict_get jr ''required_skills'' [];
                (found_skills, missing_skills) =
                   match_loop (whole_word_hit text) required_skills [] []
            in case (if required_skills \<noteq> []
                     then (case py_truediv (int (length found_skills))
                                           (int (length required_skills)) of
                             Inl e \<Rightarrow> Inl e
                           | Inr q \<Rightarrow> Inr (py_int (float_mul q 100)))
                     else Inr 0) of
                 Inl e \<Rightarrow> Inl e
               | Inr score \<Rightarrow>
                   Inr [(''score'', PInt score),
                        (''found_skills'', PList (map PStr found_skills)),
                        (''missing_skills'', PList (map PStr missing_skills))])"

section \<open>The facade\<close>

text \<open>
  What the first scorer does with the object it is given as \<open>text\<close>: it calls
  \<open>len(text)\<close> and then \<open>text.lower()\<close>, so an object that is not a \<open>str\<close>
  raises there.
\<close>

fun text_arg :: "pyval \<Rightarrow> exn + string" where
  "text_arg (PStr s) = Inr s"
| "text_arg PNone = Inl (NoLenTypeError ''NoneType'')"
| "text_arg (PInt i) = Inl (NoLenTypeError ''int'')"
| "text_arg (PFloat r) = Inl (NoLenTypeError ''float'')"
| "text_arg (PList xs) = Inl (AttributeError ''list'' ''lower'')"
| "text_arg (PDict d) = Inl (AttributeError ''dict'' ''lower'')"

text \<open>the body of the \<open>try\<close> block of \<open>analyze_resume\<close>\<close>

definition analyze_body ::
  "resume_analyzer \<Rightarrow> pydict \<Rightarrow> (string \<times> string list) list option \<Rightarrow> exn + pydict"
where
  "analyze_body self resume_data job_requirements =
     (let text = dict_get resume_data ''raw_text'' (PStr [])
      in if \<not> truthy text
         then Inr [(''error'', PStr ''No text content found in resume'')]
         else
           case text_arg text of
             Inl e \<Rightarrow> Inl e
           | Inr t \<Rightarrow>
              (case calculate_section_score self t of
                 Inl e \<Rightarrow> Inl e
               | Inr section_score \<Rightarrow>
                  (case analyze_keyword_match t job_requirements of
                     Inl e \<Rightarrow> Inl e
                   | Inr keyword_match \<Rightarrow>
                       Inr [(''document_type'', PStr ''resume''),
                            (''ats_score'', PInt (calculate_ats_score t)),
                            (''format_score'', PInt (calculate_format_score t)),
                            (''section_score'', PInt section_score),
                            (''keyword_match'', PDict keyword_match),
                            (''suggestions'', PList (map PStr (generate_suggestions t)))])))"

text \<open>\<open>analyze_resume\<close>: the \<open>except Exception\<close> clause returns a dictionary.\<close>

definition analyze_resume ::
  "resume_analyzer \<Rightarrow> pydict \<Rightarrow> (string \<times> string list) list option \<Rightarrow> pydict"
where
  "analyze_resume self resume_data job_requirements =
     (case analyze_body self resume_data job_requirements of
        Inr analysis \<Rightarrow> analysis
      | Inl e \<Rightarrow> [(''error'', PStr (''Error analyzing resume: '' @ exn_str e))])"

section \<open>The stand-alone keyword matcher\<close>



section \<open>The field extractors\<close>

text \<open>
  \<open>extract_education\<close>, \<open>extract_experience\<close> and \<open>extract_projects\<close> are the
  same scan over the lines of the text, each with its own keyword list. The state of
  the scan is the flag \<open>in_..._section\<close>, the list \<open>current_entry\<close> and the list of
  finished entries.
\<close>

record scan_state =
  in_section :: bool
  current_entry :: "string list"
  entries :: "string list"

text \<open>\<open>self.document_types['resume']\<close>\<close>

definition resume_keywords :: "resume_analyzer \<Rightarrow> exn + string list" where
  "resume_keywords self =
     (case document_types self of
        None \<Rightarrow> Inl (AttributeError ''ResumeAnalyzer'' ''document_types'')
      | Some d \<Rightarrow>
         (case map_of d ''resume'' of
            None \<Rightarrow> Inl (KeyError ''resume'')
          | Some ks \<Rightarrow> Inr ks))"

text \<open>\<open>any(keyword.lower() in line.lower() for keyword in keywords)\<close>\<close>

definition mentions :: "string list \<Rightarrow> string \<Rightarrow> bool" where
  "mentions keywords line = list_ex (\<lambda>keyword. contains (lower keyword) (lower line)) keywords"

text \<open>\<open>any(keyword.lower() == line.lower() for keyword in keywords)\<close>\<close>

definition is_header :: "string list \<Rightarrow> string \<Rightarrow> bool" where
  "is_header keywords line = list_ex (\<lambda>keyword. lower keyword = lower line) keywords"

text \<open>flushing \<open>current_entry\<close>: \<open>entries.append(' '.join(current_entry))\<close>\<close>

definition flush :: "scan_state \<Rightarrow> scan_state" where
  "flush st = st\<lparr>entries := entries st @ [join '' '' (current_entry st)], current_entry := []\<rparr>"

text \<open>one turn of the loop over the lines\<close>

definition scan_line ::
  "resume_analyzer \<Rightarrow> string list \<Rightarrow> string \<Rightarrow> scan_state \<Rightarrow> exn + scan_state"
where
  "scan_line self keywords raw_line st =
     (let line = strip raw_line
      in if mentions keywords line
         then Inr ((if \<not> is_header keywords line
                    then st\<lparr>current_entry := current_entry st @ [line]\<rparr> else st)
                   \<lparr>in_section := True\<rparr>)
         else if in_section st
         then
           (if line \<noteq> []
            then (case resume_keywords self of
                    Inl e \<Rightarrow> Inl e
                  | Inr other_keywords \<Rightarrow>
                      if mentions other_keywords line \<and> \<not> mentions keywords line
                      then Inr ((if current_entry st \<noteq> [] then flush st else st)
                                \<lparr>in_section := False\<rparr>)
                      else Inr (st\<lparr>current_entry := current_entry st @ [line]\<rparr>))
            else if current_entry st \<noteq> [] then Inr (flush st)
            else Inr st)
         else Inr st)"

fun scan_lines ::
  "resume_analyzer \<Rightarrow> string list \<Rightarrow> string list \<Rightarrow> scan_state \<Rightarrow> exn + scan_state"
where
  "scan_lines self keywords [] st = Inr st"
| "scan_lines self keywords (l # ls) st =
     (case scan_line self keywords l st of
        Inl e \<Rightarrow> Inl e
      | Inr st' \<Rightarrow> scan_lines self keywords ls st')"

definition extract_section :: "resume_analyzer \<Rightarrow> string list \<Rightarrow> string \<Rightarrow> exn + string list" where
  "extract_section self keywords text =
     (case scan_lines self keywords (split_on NL text)
             \<lparr>in_section = False, current_entry = [], entries = []\<rparr> of
        Inl e \<Rightarrow> Inl e
      | Inr st \<Rightarrow> Inr (entries (if current_entry st \<noteq> [] then flush st else st)))"

definition education_keywords :: "string list" where
  "education_keywords =
     [''education'', ''academic'', ''qualification'', ''degree'', ''university'', ''college'',
      ''school'', ''institute'', ''certification'', ''diploma'', ''bachelor'', ''master'',
      ''phd'', ''b.tech'', ''m.tech'', ''b.e'', ''m.e'', ''b.sc'', ''m.sc'', ''bca'', ''mca'',
      ''b.com'', ''m.com'', ''b.cs-it'', ''imca'', ''bba'', ''mba'', ''honors'', ''scholarship'']"

definition experience_keywords :: "string list" where
  "experience_keywords =
     [''experience'', ''employment'', ''work history'', ''professional experience'',
      ''work experience'', ''career history'', ''professional background'',
      ''employment history'', ''job history'', ''positions held'', ''experience'',
      ''job title'', ''job responsibilities'', ''job description'', ''job summary'']"

definition project_keywords :: "string list" where
  "project_keywords =
     [''projects'', ''personal projects'', ''academic projects'', ''key projects'',
      ''major projects'', ''professional projects'', ''project experience'',
      ''relevant projects'', ''featured projects'', ''latest projects'', ''top projects'']"

definition extract_education :: "resume_analyzer \<Rightarrow> string \<Rightarrow> exn + string list" where
  "extract_education self text = extract_section self education_keywords text"

definition extract_experience :: "resume_analyzer \<Rightarrow> string \<Rightarrow> exn + string list" where
  "extract_experience self text = extract_section self experience_keywords text"

definition extract_projects :: "resume_analyzer \<Rightarrow> string \<Rightarrow> exn + string list" where
  "extract_projects self text = extract_section self project_keywords text"

text \<open>
  \<open>check_resume_sections\<close>: one score per entry of \<open>self.essential_sections\<close>, summed
  by \<open>sum\<close> from the integer 0.
\<close>

fun section_scores :: "string \<Rightarrow> (string \<times> string list) list \<Rightarrow> exn + rat list" where
  "section_scores text [] = Inr []"
| "section_scores text ((section, keywords) # rest) =
     (let found = length (filter (\<lambda>keyword. contains keyword text) keywords)
      in case py_truediv (int found) (int (length keywords)) of
           Inl e \<Rightarrow> Inl e
         | Inr q \<Rightarrow>
            (case section_scores text rest of
               Inl e \<Rightarrow> Inl e
             | Inr scores \<Rightarrow> Inr (min 25 (float_mul q 25) # scores)))"

definition check_resume_sections :: "resume_analyzer \<Rightarrow> string \<Rightarrow> exn + rat" where
  "check_resume_sections self text0 =
     (let text = lower text0
      in case essential_sections self of
           None \<Rightarrow> Inl (AttributeError ''ResumeAnalyzer'' ''essential_sections'')
         | Some es \<Rightarrow>
            (case section_scores text es of
               Inl e \<Rightarrow> Inl e
             | Inr scores \<Rightarrow> Inr (foldl float_add 0 scores)))"

section \<open>Notions of the specification\<close>

text \<open>
  \<open>w\<close> occurs in \<open>s\<close> as a whole word: neither neighbour of the occurrence is a word
  character.
\<close>

definition whole_word :: "string \<Rightarrow> string \<Rightarrow> bool" where
  "whole_word w s =
     (\<exists>ps ss. s = ps @ w @ ss \<and> \<not> word_at (last_char None ps) \<and> \<not> word_at (first_char ss))"

text \<open>
  \<open>w\<close> occurs in \<open>s\<close> with \<open>\b\<close> on both sides. For a \<open>w\<close> of word characters this
  is \<^const>\<open>whole_word\<close>; for a \<open>w\<close> that begins or ends with another character
  the neighbour on that side has to be a word character.
\<close>

definition bounded_occurrence :: "string \<Rightarrow> string \<Rightarrow> bool" where
  "bounded_occurrence w s =
     (\<exists>ps ss. s = ps @ w @ ss \<and>
        boundary (last_char None ps) (first_char (w @ ss)) \<and>
        boundary (last_char None (ps @ w)) (first_char ss))"


text \<open>the lines of a document, stripped, without the blank ones\<close>

definition nonblank_lines :: "string \<Rightarrow> string list" where
  "nonblank_lines text = filter (\<lambda>l. l \<noteq> []) (map strip (split_on NL text))"

text \<open>the integer stored under a key of a dictionary\<close>

definition int_at :: "pydict \<Rightarrow> string \<Rightarrow> int option" where
  "int_at d k = (case map_of d k of Some (PInt i) \<Rightarrow> Some i | _ \<Rightarrow> None)"

text \<open>the two dictionaries \<open>analyze_resume\<close> builds\<close>

definition no_text_error :: pydict where
  "no_text_error = [(''error'', PStr ''No text content found in resume'')]"

definition analysis_of :: "string \<Rightarrow> int \<Rightarrow> pydict \<Rightarrow> pydict" where
  "analysis_of t section_score keyword_match =
     [(''document_type'', PStr ''resume''),
      (''ats_score'', PInt (calculate_ats_score t)),
      (''format_score'', PInt (calculate_format_score t)),
      (''section_score'', PInt section_score),
      (''keyword_match'', PDict keyword_match),
      (''suggestions'', PList (map PStr (generate_suggestions t)))]"


subsection \<open>What an extractor does with a line\<close>

text \<open>
  An extractor scans the stripped lines with its own keyword list \<open>kws\<close> and the list
  \<open>others\<close>, which is \<open>self.document_types['resume']\<close>. A line is kept, ends the
  current block, or is dropped.
\<close>

datatype mark = Keep string | Boundary | Dropped

text \<open>a non-blank line that mentions a keyword of \<open>others\<close> and none of \<open>kws\<close>\<close>

definition closes :: "string list \<Rightarrow> string list \<Rightarrow> string \<Rightarrow> bool" where
  "closes others kws line = (line \<noteq> [] \<and> \<not> mentions kws line \<and> mentions others line)"

text \<open>
  After the lines \<open>before\<close> the section is open: one of them mentions a keyword of
  \<open>kws\<close> and none after it closes the section.
\<close>

definition inside :: "string list \<Rightarrow> string list \<Rightarrow> string list \<Rightarrow> bool" where
  "inside others kws before =
     (\<exists>p l q. before = p @ l # q \<and> mentions kws l \<and> list_all (\<lambda>c. \<not> closes others kws c) q)"

text \<open>
  A line that mentions a keyword of \<open>kws\<close> is kept unless it is one of the keywords.
  Any other line is dropped outside the section; inside it, a blank line and a line that
  closes the section end the block, and every other line is kept.
\<close>

definition mark_of :: "string list \<Rightarrow> string list \<Rightarrow> bool \<Rightarrow> string \<Rightarrow> mark" where
  "mark_of others kws in_sec line =
     (if mentions kws line then (if is_header kws line then Dropped else Keep line)
      else if in_sec then (if line = [] \<or> mentions others line then Boundary else Keep line)
      else Dropped)"

definition marks :: "string list \<Rightarrow> string list \<Rightarrow> string list \<Rightarrow> mark list" where
  "marks others kws ls =
     map (\<lambda>i. mark_of others kws (inside others kws (take i ls)) (ls ! i)) [0..<length ls]"

text \<open>the runs of kept lines between the ends of blocks\<close>

fun runs :: "mark list \<Rightarrow> string list list" where
  "runs [] = [Nil]"
| "runs (Keep l # ms) = (case runs ms of [] \<Rightarrow> [l] # [] | r # rs \<Rightarrow> (l # r) # rs)"
| "runs (Boundary # ms) = [] # runs ms"
| "runs (Dropped # ms) = runs ms"

text \<open>the entries: the non-empty runs, each joined by single spaces\<close>

definition section_entries :: "string list \<Rightarrow> string list \<Rightarrow> string \<Rightarrow> string list" where
  "section_entries others kws text =
     map (join '' '') (filter (\<lambda>r. r \<noteq> []) (runs (marks others kws (map strip (split_on NL text)))))"

text \<open>the marks of the lines when the scan starts with the flag \<open>b\<close>\<close>

fun marks_from :: "string list \<Rightarrow> string list \<Rightarrow> bool \<Rightarrow> string list \<Rightarrow> mark list" where
  "marks_from others kws b [] = []"
| "marks_from others kws b (l # ls) =
     mark_of others kws b l #
     marks_from others kws (mentions kws l \<or> (b \<and> \<not> closes others kws l)) ls"

text \<open>the entries of a state after the last line\<close>

definition finish :: "scan_state \<Rightarrow> string list" where
  "finish st = entries (if current_entry st \<noteq> [] then flush st else st)"

subsection \<open>Sample inputs\<close>

text \<open>50 characters, the last one outside ASCII, and no keyword\<close>

definition sample_short_text :: string where
  "sample_short_text = replicate 49 CHR ''x'' @ [char_of (233 :: nat)]"

definition education_line :: string where
  "education_line = ''Education: B.Tech, XYZ University''"

definition blank_text :: string where
  "blank_text = ''   ''"


definition python_job :: "(string \<times> string list) list" where
  "python_job = [(''required_skills'', [''Python'', ''SQL''])]"

definition python_resume :: pydict where
  "python_resume = [(''raw_text'', PStr ''Experienced in Python development'')]"

definition unmatched_resume :: string where
  "unmatched_resume = ''Education'' @ [NL] @ ''XYZ''"

definition lossy_resume :: string where
  "lossy_resume = ''John Doe'' @ [NL] @ ''Education'' @ [NL] @ ''B.Tech in CS''"

definition shared_line :: string where
  "shared_line = ''University work experience at X''"



text \<open>an analyzer whose \<open>document_types\<close> has been assigned\<close>

definition assigned_analyzer :: resume_analyzer where
  "assigned_analyzer = init\<lparr>document_types := Some [(''resume'', [''experience'', ''skills''])]\<rparr>"

definition sectioned_resume :: string where
  "sectioned_resume =
     ''John Doe'' @ [NL] @ ''Education'' @ [NL] @ ''  XYZ  '' @ [NL] @ ''ABC'' @ [NL, NL] @
     ''DEF'' @ [NL] @ ''Skills'' @ [NL] @ ''foo''"

section \<open>Auxiliary facts\<close>

subsection \<open>Searching a word\<close>

lemma last_char_append: "last_char prev (xs @ ys) = last_char (last_char prev xs) ys"
  by (induction xs arbitrary: prev) auto

lemma first_char_append: "first_char (xs @ ys) = (if xs = [] then first_char ys else first_char xs)"
  by (cases xs) auto

lemma match_word_here_iff:
  "match_word_here prev lit rest \<longleftrightarrow>
     (\<exists>ss. rest = lit @ ss \<and> boundary prev (first_char (lit @ ss)) \<and>
           boundary (last_char prev lit) (first_char ss))"
  by (auto simp: match_word_here_def prefix_def)

lemma search_from_iff:
  "search_from prev lit s \<longleftrightarrow>
     (\<exists>ps ss. s = ps @ lit @ ss \<and>
        boundary (last_char prev ps) (first_char (lit @ ss)) \<and>
        boundary (last_char prev (ps @ lit)) (first_char ss))"
proof (induction s arbitrary: prev)
  case Nil
  show ?case by (auto simp: match_word_here_iff)
next
  case (Cons c cs)
  show ?case (is "?L \<longleftrightarrow> ?R")
  proof
    assume ?L
    then consider "match_word_here prev lit (c # cs)" | "search_from (Some c) lit cs" by auto
    then show ?R
    proof cases
      case 1
      then obtain ss where "c # cs = lit @ ss" "boundary prev (first_char (lit @ ss))"
        "boundary (last_char prev lit) (first_char ss)"
        unfolding match_word_here_iff by blast
      then show ?thesis by (intro exI[of _ "[]"] exI[of _ ss]) simp
    next
      case 2
      then obtain ps ss where h: "cs = ps @ lit @ ss"
        "boundary (last_char (Some c) ps) (first_char (lit @ ss))"
        "boundary (last_char (Some c) (ps @ lit)) (first_char ss)"
        unfolding Cons.IH by blast
      then show ?thesis by (intro exI[of _ "c # ps"] exI[of _ ss]) simp
    qed
  next
    assume ?R
    then obtain ps ss where h: "c # cs = ps @ lit @ ss"
        "boundary (last_char prev ps) (first_char (lit @ ss))"
        "boundary (last_char prev (ps @ lit)) (first_char ss)" by blast
    show ?L
    proof (cases ps)
      case Nil
      with h have "match_word_here prev lit (c # cs)"
        unfolding match_word_here_iff by auto
      then show ?thesis by simp
    next
      case (Cons p ps')
      with h have "cs = ps' @ lit @ ss" "p = c" by auto
      with h Cons have "search_from (Some c) lit cs"
        unfolding Cons.IH by auto
      then show ?thesis by simp
    qed
  qed
qed

lemma last_char_word:
  "w \<noteq> [] \<Longrightarrow> list_all is_word_char w \<Longrightarrow> word_at (last_char prev w)"
proof (induction w arbitrary: prev)
  case Nil
  then show ?case by simp
next
  case (Cons c cs)
  then show ?case by (cases cs) auto
qed

lemma search_word_whole_word:
  assumes "w \<noteq> []" "list_all is_word_char w"
  shows "search_word w s \<longleftrightarrow> whole_word w s"
proof -
  have a: "word_at (first_char (w @ ss))" for ss
    using assms by (cases w) auto
  have b: "word_at (last_char None (ps @ w))" for ps
    using assms by (simp add: last_char_append last_char_word)
  show ?thesis
    unfolding search_word_def search_from_iff whole_word_def boundary_def
    using a b by auto
qed


lemma search_words_whole:
  assumes "list_all (\<lambda>w. w \<noteq> [] \<and> list_all is_word_char w) alts"
  shows "search_words alts s \<longleftrightarrow> (\<exists>w \<in> set alts. whole_word w s)"
  using assms
  by (auto simp: search_words_def list_ex_iff list_all_iff search_word_whole_word)

lemma ats_alts: "list_all (\<lambda>w. w \<noteq> [] \<and> list_all is_word_char w) [''experience'', ''education'', ''skills'']"
  by code_simp

lemma exp_alts: "list_all (\<lambda>w. w \<noteq> [] \<and> list_all is_word_char w) [''experience'', ''work'', ''job'']"
  by code_simp

lemma edu_alts: "list_all (\<lambda>w. w \<noteq> [] \<and> list_all is_word_char w) [''education'', ''university'', ''college'', ''school'']"
  by code_simp

lemma skl_alts: "list_all (\<lambda>w. w \<noteq> [] \<and> list_all is_word_char w) [''skills'', ''expertise'', ''competencies'']"
  by code_simp

lemma ats_unfold:
  "calculate_ats_score text =
     max 0 (100 - (if length text < 100 then 20 else 0)
                - (if search_words [''experience'', ''education'', ''skills''] (lower text) then 0 else 15)
                - (if list_ex non_ascii text then 10 else 0))"
  by (simp add: calculate_ats_score_def Let_def)

lemma suggestions_unfold:
  "generate_suggestions text =
     (if length text < 200 then [too_short_msg] else []) @
     (if search_words [''experience'', ''work'', ''job''] (lower text) then [] else [no_experience_msg]) @
     (if search_words [''education'', ''university'', ''college'', ''school''] (lower text) then [] else [no_education_msg]) @
     (if search_words [''skills'', ''expertise'', ''competencies''] (lower text) then [] else [no_skills_msg])"
  by (simp add: generate_suggestions_def Let_def)

lemma msgs_distinct:
  "distinct [too_short_msg, no_experience_msg, no_education_msg, no_skills_msg]"
  by (simp add: too_short_msg_def no_experience_msg_def no_education_msg_def no_skills_msg_def)

lemma msgs_nonempty:
  "too_short_msg \<noteq> []" "no_experience_msg \<noteq> []" "no_education_msg \<noteq> []" "no_skills_msg \<noteq> []"
  by (simp_all add: too_short_msg_def no_experience_msg_def no_education_msg_def no_skills_msg_def)

subsection \<open>Rounding to a double\<close>

lemma round_half_even_le:
  assumes "y \<le> of_int N"
  shows "round_half_even y \<le> N"
proof -
  have f: "\<lfloor>y\<rfloor> \<le> N" using assms by (simp add: floor_le_iff)
  show ?thesis
  proof (cases "y = of_int \<lfloor>y\<rfloor>")
    case True
    then have "y - of_int \<lfloor>y\<rfloor> = 0" by simp
    then show ?thesis using f by (simp add: round_half_even_def Let_def)
  next
    case False
    then have "of_int \<lfloor>y\<rfloor> < y" by (metis of_int_floor_le order_less_le)
    with assms have "(of_int \<lfloor>y\<rfloor> :: rat) < of_int N" by linarith
    then have "\<lfloor>y\<rfloor> < N" by simp
    then show ?thesis by (simp add: round_half_even_def Let_def)
  qed
qed

lemma round_half_even_nonneg:
  assumes "0 \<le> y"
  shows "0 \<le> round_half_even y"
proof -
  have "0 \<le> \<lfloor>y\<rfloor>" using assms by simp
  then show ?thesis by (simp add: round_half_even_def Let_def)
qed

lemma ilog2_lower:
  assumes "0 < x"
  shows "2 powi (ilog2 x) \<le> x"
proof -
  define a where "a = fst (quotient_of x)"
  define b where "b = snd (quotient_of x)"
  have bpos: "0 < b" unfolding b_def by (rule quotient_of_denom_pos')
  have xeq: "x = of_int a / of_int b"
    unfolding a_def b_def by (metis prod.collapse quotient_of_div)
  have apos: "0 < a"
    using assms bpos unfolding xeq by (simp add: zero_less_divide_iff)
  define k where "k = bitlen a - bitlen b"
  have la: "(2::int) ^ nat (bitlen a - 1) \<le> a" using bitlen_bounds[OF apos] by simp
  have lb: "b < (2::int) ^ nat (bitlen b)" using bitlen_bounds[OF bpos] by simp
  have la1: "1 \<le> bitlen a" using apos by (auto simp: bitlen_alt_def)
  have lb1: "1 \<le> bitlen b" using bpos by (auto simp: bitlen_alt_def)
  have ra: "(2::rat) powi (bitlen a - 1) \<le> of_int a"
  proof -
    have "(of_int ((2::int) ^ nat (bitlen a - 1)) :: rat) \<le> of_int a"
      using la by (simp only: of_int_le_iff)
    then show ?thesis using la1 by (simp add: power_int_def)
  qed
  have rb: "(of_int b :: rat) \<le> 2 powi (bitlen b)"
  proof -
    have "(of_int b :: rat) < of_int ((2::int) ^ nat (bitlen b))"
      using lb by (simp only: of_int_less_iff)
    then show ?thesis using lb1 by (simp add: power_int_def)
  qed
  have low: "(2::rat) powi (k - 1) \<le> x"
  proof -
    have "k - 1 = (bitlen a - 1) - bitlen b" unfolding k_def by simp
    then have "(2::rat) powi (k - 1) = 2 powi (bitlen a - 1) / 2 powi (bitlen b)"
      by (simp only: power_int_diff[of "2::rat", simplified])
    also have "\<dots> \<le> of_int a / 2 powi (bitlen b)"
      using ra by (simp add: divide_right_mono)
    also have "\<dots> \<le> of_int a / of_int b"
      using rb apos bpos by (simp add: divide_left_mono)
    finally show ?thesis unfolding xeq .
  qed
  show ?thesis
    using low unfolding ilog2_def Let_def a_def[symmetric] b_def[symmetric] k_def[symmetric]
    by simp
qed

lemma ilog2_less:
  assumes "0 < x" "x < 2 powi m" "0 \<le> m"
  shows "ilog2 x < m"
proof -
  have "(2::rat) powi (ilog2 x) < 2 powi m"
    using ilog2_lower[OF assms(1)] assms(2) by linarith
  then show ?thesis using assms(3) by (intro power_int_le_imp_less_exp[of "2::rat"]) auto
qed

lemma fl64_nonneg:
  assumes "0 \<le> x"
  shows "0 \<le> fl64 x"
proof (cases "x = 0")
  case True
  then show ?thesis by (simp add: fl64_def)
next
  case False
  define e where "e = max (ilog2 \<bar>x\<bar> - 52) (- 1074)"
  have "0 \<le> x / 2 powi e" using assms by simp
  then have "0 \<le> round_half_even (x / 2 powi e)" by (rule round_half_even_nonneg)
  then have "0 \<le> (of_int (round_half_even (x / 2 powi e)) :: rat) * 2 powi e" by simp
  then show ?thesis using False unfolding fl64_def Let_def e_def by simp
qed

lemma fl64_le_int:
  assumes "0 \<le> x" "x \<le> of_int n" "n < 2 ^ 53"
  shows "fl64 x \<le> of_int n"
proof (cases "x = 0")
  case True
  then show ?thesis using assms by (simp add: fl64_def)
next
  case False
  then have xpos: "0 < x" using assms(1) by simp
  define e where "e = max (ilog2 \<bar>x\<bar> - 52) (- 1074)"
  have "(of_int n :: rat) < of_int (2 ^ 53)" using assms(3) by (simp only: of_int_less_iff)
  then have "x < 2 powi 53" using assms(2) by simp
  then have "ilog2 x < 53" using xpos by (intro ilog2_less) auto
  then have e0: "e \<le> 0" using xpos unfolding e_def by simp
  define N where "N = n * 2 ^ nat (- e)"
  have pe: "(2::rat) powi e = inverse (2 ^ nat (- e))"
    using e0 by (cases "e = 0") (auto simp: power_int_def power_one_over inverse_eq_divide)
  have Ne: "(of_int N :: rat) * 2 powi e = of_int n" unfolding N_def pe by simp
  have "x / 2 powi e \<le> of_int n / 2 powi e" using assms(2) by (simp add: divide_right_mono)
  also have "\<dots> = of_int N" unfolding N_def pe by (simp add: divide_inverse)
  finally have "round_half_even (x / 2 powi e) \<le> N" by (rule round_half_even_le)
  then have "(of_int (round_half_even (x / 2 powi e)) :: rat) \<le> of_int N" by simp
  then have "(of_int (round_half_even (x / 2 powi e)) :: rat) * 2 powi e \<le> of_int N * 2 powi e"
    by (simp add: mult_right_mono)
  then show ?thesis using False unfolding fl64_def Let_def e_def[symmetric] Ne by simp
qed

lemma py_int_bounds:
  assumes "0 \<le> x" "x \<le> of_int n"
  shows "0 \<le> py_int x \<and> py_int x \<le> n"
  using assms by (simp add: py_int_def floor_le_iff le_floor_iff) 

lemma percent_bounds:
  assumes "0 \<le> a" "a \<le> b" "0 < b"
  shows "0 \<le> py_int (float_mul (fl64 (of_int a / of_int b)) 100) \<and>
         py_int (float_mul (fl64 (of_int a / of_int b)) 100) \<le> 100"
proof -
  define q where "q = fl64 (of_int a / of_int b)"
  have x0: "(0::rat) \<le> of_int a / of_int b" using assms by simp
  have x1: "(of_int a / of_int b :: rat) \<le> of_int 1" using assms by simp
  have q0: "0 \<le> q" unfolding q_def using x0 by (rule fl64_nonneg)
  have q1: "q \<le> of_int 1" unfolding q_def using x0 x1 by (rule fl64_le_int) simp
  have m0: "0 \<le> q * 100" using q0 by simp
  have m1: "q * 100 \<le> of_int 100" using q1 by simp
  have r0: "0 \<le> fl64 (q * 100)" using m0 by (rule fl64_nonneg)
  have r1: "fl64 (q * 100) \<le> of_int 100" using m0 m1 by (rule fl64_le_int) simp
  show ?thesis using py_int_bounds[OF r0 r1] unfolding float_mul_def q_def .
qed


subsection \<open>The section score\<close>

lemma contains_sublist: "contains sub s \<longleftrightarrow> sublist sub s"
  by (induction s) (auto simp: sublist_Cons_right)

lemma section_present_iff:
  "section_present text kws \<longleftrightarrow> (\<exists>k \<in> set kws. sublist k (lower text))"
  by (simp add: section_present_def list_ex_iff contains_sublist)

lemma fifths:
  "py_int (float_mul (fl64 0) 100) = 0"
  "py_int (float_mul (fl64 (1 / 5)) 100) = 20"
  "py_int (float_mul (fl64 (2 / 5)) 100) = 40"
  "py_int (float_mul (fl64 (3 / 5)) 100) = 60"
  "py_int (float_mul (fl64 (4 / 5)) 100) = 80"
  "py_int (float_mul (fl64 1) 100) = 100"
  by code_simp+


lemma percent_of_five:
  assumes "k \<le> 5"
  shows "py_int (float_mul (fl64 (of_int (int k) / of_int (int 5))) 100) = 20 * int k"
proof -
  from assms consider "k = 0" | "k = 1" | "k = 2" | "k = 3" | "k = 4" | "k = 5" by linarith
  then show ?thesis
  proof cases
    case 1 then show ?thesis using fifths(1) by simp
  next
    case 2 then show ?thesis using fifths(2) by simp
  next
    case 3 then show ?thesis using fifths(3) by simp
  next
    case 4 then show ?thesis using fifths(4) by simp
  next
    case 5 then show ?thesis using fifths(5) by simp
  next
    case 6 then show ?thesis using fifths(6) by simp
  qed
qed

lemma init_sections_length: "length (sections init) = 5"
  by (simp add: init_def)

lemma init_sections_distinct: "distinct (sections init)"
  by (simp add: init_def)


lemma section_score_init:
  "calculate_section_score init text =
     Inr (20 * int (length (filter (section_present text) (map snd (sections init)))))"
proof -
  define k where "k = length (filter (section_present text) (map snd (sections init)))"
  have "k \<le> 5" unfolding k_def
    by (metis init_sections_length length_filter_le length_map)
  then have p: "py_int (float_mul (fl64 (of_int (int k) / of_int (int 5))) 100) = 20 * int k"
    by (rule percent_of_five)
  have "calculate_section_score init text =
      (case py_truediv (int k) (int 5) of Inl e \<Rightarrow> Inl e | Inr q \<Rightarrow> Inr (py_int (float_mul q 100)))"
    unfolding calculate_section_score_def Let_def k_def init_sections_length ..
  also have "\<dots> = Inr (py_int (float_mul (fl64 (of_int (int k) / of_int (int 5))) 100))"
    by (simp add: py_truediv_def)
  also have "\<dots> = Inr (20 * int k)" by (simp only: p)
  finally show ?thesis unfolding k_def .
qed

lemma init_section_names:
  "map fst (sections init) = [''education'', ''experience'', ''skills'', ''projects'', ''summary'']"
  by (simp add: init_def)

lemma sections_found_card:
  "length (filter (section_present text) (map snd (sections init))) =
      card {s \<in> set (sections init). \<exists>k \<in> set (snd s). sublist k (lower text)}"
proof -
  have "length (filter (section_present text) (map snd (sections init))) =
        length (filter (\<lambda>s. section_present text (snd s)) (sections init))"
    by (simp add: filter_map o_def)
  also have "\<dots> = card (set (filter (\<lambda>s. section_present text (snd s)) (sections init)))"
    using init_sections_distinct by (metis distinct_card distinct_filter)
  also have "set (filter (\<lambda>s. section_present text (snd s)) (sections init)) =
      {s \<in> set (sections init). \<exists>k \<in> set (snd s). sublist k (lower text)}"
    unfolding section_present_iff by auto
  finally show ?thesis .
qed

subsection \<open>The keyword match of the facade\<close>

lemma match_loop_filter:
  "match_loop hit xs f m = (f @ filter hit xs, m @ filter (\<lambda>x. \<not> hit x) xs)"
  by (induction xs arbitrary: f m) auto

lemma analyze_keyword_match_absent:
  "jr = None \<or> jr = Some [] \<Longrightarrow>
   analyze_keyword_match text jr = Inr [(''score'', PInt 0), (''missing_skills'', PList [])]"
  by (auto simp: analyze_keyword_match_def)

lemma analyze_keyword_match_present:
  assumes "jr \<noteq> []"
  shows "analyze_keyword_match text (Some jr) =
     Inr [(''score'',
            PInt (if dict_get jr ''required_skills'' [] = [] then 0
                  else py_int (float_mul
                     (fl64 (of_int (int (length (filter (whole_word_hit text) (dict_get jr ''required_skills'' []))))
                            / of_int (int (length (dict_get jr ''required_skills'' []))))) 100))),
          (''found_skills'', PList (map PStr (filter (whole_word_hit text) (dict_get jr ''required_skills'' [])))),
          (''missing_skills'', PList (map PStr (filter (\<lambda>s. \<not> whole_word_hit text s) (dict_get jr ''required_skills'' []))))]"
  using assms
  by (simp add: analyze_keyword_match_def Let_def match_loop_filter py_truediv_def)

lemma keyword_score_bounds:
  "0 \<le> (if req = [] then 0
         else py_int (float_mul (fl64 (of_int (int (length (filter P req))) / of_int (int (length req)))) 100))
   \<and> (if req = [] then 0
         else py_int (float_mul (fl64 (of_int (int (length (filter P req))) / of_int (int (length req)))) 100)) \<le> 100"
proof (cases "req = []")
  case True
  then show ?thesis by simp
next
  case False
  have "0 \<le> int (length (filter P req))" "int (length (filter P req)) \<le> int (length req)"
       "0 < int (length req)"
    using False by simp_all
  from percent_bounds[OF this] False show ?thesis by simp
qed


lemma analyze_keyword_match_total:
  "\<exists>km. analyze_keyword_match text jr = Inr km"
proof (cases "jr = None \<or> jr = Some []")
  case True
  then show ?thesis using analyze_keyword_match_absent by blast
next
  case False
  then obtain d where "jr = Some d" "d \<noteq> []" by auto
  then show ?thesis using analyze_keyword_match_present by blast
qed

subsection \<open>The facade\<close>

lemma analyze_body_falsy:
  assumes "\<not> truthy (dict_get rd ''raw_text'' (PStr []))"
  shows "analyze_body self rd jr = Inr no_text_error"
  using assms by (simp add: analyze_body_def no_text_error_def Let_def)

lemma analyze_body_text:
  assumes "dict_get rd ''raw_text'' (PStr []) = PStr s" "s \<noteq> []"
    and "calculate_section_score self s = Inr sec" "analyze_keyword_match s jr = Inr km"
  shows "analyze_body self rd jr = Inr (analysis_of s sec km)"
  using assms by (simp add: analyze_body_def analysis_of_def Let_def)

lemma analysis_of_no_error: "\<not> has_key (analysis_of s sec km) ''error''"
  by (simp add: has_key_def analysis_of_def)

lemma no_text_error_has_error: "has_key no_text_error ''error''"
  by (simp add: has_key_def no_text_error_def)


lemma analyze_resume_empty:
  assumes "\<not> truthy (dict_get rd ''raw_text'' (PStr []))"
  shows "analyze_resume self rd jr = no_text_error"
  using analyze_body_falsy[OF assms] by (simp add: analyze_resume_def)

lemma analyze_resume_nonempty:
  assumes h: "dict_get rd ''raw_text'' (PStr []) = PStr s" "s \<noteq> []"
  shows "\<exists>sec km. calculate_section_score init s = Inr sec \<and>
                analyze_keyword_match s jr = Inr km \<and>
                analyze_resume init rd jr = analysis_of s sec km"
proof -
  obtain km where km: "analyze_keyword_match s jr = Inr km"
    using analyze_keyword_match_total by blast
  obtain sec where sec: "calculate_section_score init s = Inr sec"
    using section_score_init by blast
  have "analyze_resume init rd jr = analysis_of s sec km"
    using analyze_body_text[OF h sec km] by (simp add: analyze_resume_def)
  then show ?thesis using km sec by auto
qed

lemma ats_score_range: "0 \<le> calculate_ats_score t \<and> calculate_ats_score t \<le> 100"
  unfolding ats_unfold by simp

lemma format_score_range: "0 \<le> calculate_format_score t \<and> calculate_format_score t \<le> 100"
  by (simp add: calculate_format_score_def Let_def)

lemma section_score_range:
  assumes "calculate_section_score init t = Inr sec"
  shows "0 \<le> sec \<and> sec \<le> 100"
proof -
  have "length (filter (section_present t) (map snd (sections init))) \<le> 5"
    by (metis init_sections_length length_filter_le length_map)
  then show ?thesis using assms unfolding section_score_init by auto
qed

lemma keyword_match_score_range:
  assumes "analyze_keyword_match t jr = Inr km"
  shows "\<exists>k. int_at km ''score'' = Some k \<and> 0 \<le> k \<and> k \<le> 100"
proof (cases "jr = None \<or> jr = Some []")
  case True
  from analyze_keyword_match_absent[OF True, of t] assms
  have "km = [(''score'', PInt 0), (''missing_skills'', PList [])]" by simp
  then show ?thesis by (simp add: int_at_def)
next
  case False
  then obtain d where d: "jr = Some d" "d \<noteq> []" by auto
  define req where "req = dict_get d ''required_skills'' []"
  define k where "k = (if req = [] then 0
     else py_int (float_mul (fl64 (of_int (int (length (filter (whole_word_hit t) req))) / of_int (int (length req)))) 100))"
  have r: "0 \<le> k \<and> k \<le> 100" unfolding k_def by (rule keyword_score_bounds)
  have "int_at km ''score'' = Some k"
    using assms unfolding d(1) analyze_keyword_match_present[OF d(2)] k_def req_def
    by (auto simp: int_at_def)
  with r show ?thesis by blast
qed

lemma analyze_body_cases:
  "analyze_body self rd jr = Inr no_text_error \<and> \<not> truthy (dict_get rd ''raw_text'' (PStr []))
   \<or> (\<exists>e. analyze_body self rd jr = Inl e)
   \<or> (\<exists>s sec km. analyze_body self rd jr = Inr (analysis_of s sec km))"
proof (cases "truthy (dict_get rd ''raw_text'' (PStr []))")
  case False
  then show ?thesis using analyze_body_falsy by blast
next
  case True
  then show ?thesis
    by (auto simp: analyze_body_def analysis_of_def Let_def split: sum.splits)
qed

subsection \<open>Attributes that are never assigned\<close>

lemma check_resume_sections_init:
  "check_resume_sections init text = Inl (AttributeError ''ResumeAnalyzer'' ''essential_sections'')"
  by (simp add: check_resume_sections_def init_def)

lemma extract_education_unmatched:
  "extract_education init unmatched_resume = Inl (AttributeError ''ResumeAnalyzer'' ''document_types'')"
  by code_simp

subsection \<open>The stand-alone keyword match\<close>

lemma search_word_bounded: "search_word w s \<longleftrightarrow> bounded_occurrence w s"
  by (simp add: search_word_def search_from_iff bounded_occurrence_def)









lemma py_int_of_int: "py_int (of_int n) = n"
  by (simp add: py_int_def)



lemma bounded_occurrence_whole_word:
  assumes "w \<noteq> []" "list_all is_word_char w"
  shows "bounded_occurrence w s \<longleftrightarrow> whole_word w s"
  using search_word_whole_word[OF assms] search_word_bounded by simp

lemma keyword_score_truncation: "py_int (float_mul (fl64 (29 / 100)) 100) = 28"
  by code_simp


subsection \<open>The scan over the lines\<close>

lemma mentions_empty_header:
  assumes "mentions keywords []"
  shows "is_header keywords []"
proof -
  from assms obtain k where "k \<in> set keywords" "contains (lower k) (lower [])"
    by (auto simp: mentions_def list_ex_iff)
  then have "k \<in> set keywords" "lower k = lower []" by (simp_all add: lower_def)
  then show ?thesis unfolding is_header_def list_ex_iff by blast
qed

lemma scan_line_blocks:
  assumes "scan_line self keywords l st = Inr st'"
  shows "\<exists>bs ys. entries st' = entries st @ map (join '' '') bs \<and>
           list_all (\<lambda>b. b \<noteq> []) bs \<and>
           concat bs @ current_entry st' = current_entry st @ ys \<and>
           subseq ys (filter (\<lambda>l. l \<noteq> []) [strip l])"
proof -
  define line where "line = strip l"
  consider
    (app) "st' = st\<lparr>current_entry := current_entry st @ [line], in_section := True\<rparr>" "line \<noteq> []"
  | (app2) "st' = st\<lparr>current_entry := current_entry st @ [line]\<rparr>" "line \<noteq> []"
  | (same) "current_entry st' = current_entry st" "entries st' = entries st"
  | (flush) "current_entry st \<noteq> []" "current_entry st' = []"
            "entries st' = entries st @ [join '' '' (current_entry st)]"
    using assms mentions_empty_header
    unfolding scan_line_def Let_def line_def[symmetric] flush_def
    by (auto split: if_splits sum.splits)
  then show ?thesis
  proof cases
    case app
    then show ?thesis
      by (intro exI[of _ "[]"] exI[of _ "[line]"]) (simp add: line_def)
  next
    case app2
    then show ?thesis
      by (intro exI[of _ "[]"] exI[of _ "[line]"]) (simp add: line_def)
  next
    case same
    then show ?thesis
      by (intro exI[of _ "[]"] exI[of _ "[]"]) simp
  next
    case flush
    then show ?thesis
      by (intro exI[of _ "[current_entry st]"] exI[of _ "[]"]) simp
  qed
qed

lemma scan_lines_blocks:
  assumes "scan_lines self keywords ls st = Inr st'"
  shows "\<exists>bs ys. entries st' = entries st @ map (join '' '') bs \<and>
           list_all (\<lambda>b. b \<noteq> []) bs \<and>
           concat bs @ current_entry st' = current_entry st @ ys \<and>
           subseq ys (filter (\<lambda>l. l \<noteq> []) (map strip ls))"
  using assms
proof (induction ls arbitrary: st)
  case Nil
  then show ?case by (intro exI[of _ "[]"]) simp
next
  case (Cons l ls)
  from Cons.prems obtain st1 where
    s1: "scan_line self keywords l st = Inr st1" and
    s2: "scan_lines self keywords ls st1 = Inr st'"
    by (auto split: sum.splits)
  from scan_line_blocks[OF s1] obtain bs1 ys1 where
    a: "entries st1 = entries st @ map (join '' '') bs1" "list_all (\<lambda>b. b \<noteq> []) bs1"
       "concat bs1 @ current_entry st1 = current_entry st @ ys1"
       "subseq ys1 (filter (\<lambda>l. l \<noteq> []) [strip l])" by blast
  from Cons.IH[OF s2] obtain bs2 ys2 where
    b: "entries st' = entries st1 @ map (join '' '') bs2" "list_all (\<lambda>b. b \<noteq> []) bs2"
       "concat bs2 @ current_entry st' = current_entry st1 @ ys2"
       "subseq ys2 (filter (\<lambda>l. l \<noteq> []) (map strip ls))" by blast
  have c: "concat (bs1 @ bs2) @ current_entry st' = current_entry st @ (ys1 @ ys2)"
  proof -
    have "concat (bs1 @ bs2) @ current_entry st' = concat bs1 @ (concat bs2 @ current_entry st')"
      by simp
    also have "\<dots> = (concat bs1 @ current_entry st1) @ ys2" unfolding b(3) by simp
    also have "\<dots> = current_entry st @ (ys1 @ ys2)" unfolding a(3) by simp
    finally show ?thesis .
  qed
  have d: "subseq (ys1 @ ys2) (filter (\<lambda>l. l \<noteq> []) (map strip (l # ls)))"
  proof -
    have e: "filter (\<lambda>l. l \<noteq> []) (map strip (l # ls)) =
            filter (\<lambda>l. l \<noteq> []) [strip l] @ filter (\<lambda>l. l \<noteq> []) (map strip ls)"
      by simp
    show ?thesis unfolding e using a(4) b(4) by (rule list_emb_append_mono)
  qed
  show ?case
    using a(1,2) b(1,2) c d
    by (intro exI[of _ "bs1 @ bs2"] exI[of _ "ys1 @ ys2"]) simp
qed

lemma extract_section_blocks:
  assumes "extract_section self keywords text = Inr es"
  shows "\<exists>blocks. es = map (join '' '') blocks \<and> list_all (\<lambda>b. b \<noteq> []) blocks \<and>
           subseq (concat blocks) (nonblank_lines text)"
proof -
  define st0 where "st0 = \<lparr>in_section = False, current_entry = [], entries = []\<rparr>"
  from assms obtain st where
    s: "scan_lines self keywords (split_on NL text) st0 = Inr st" and
    es: "es = entries (if current_entry st \<noteq> [] then flush st else st)"
    unfolding extract_section_def st0_def by (auto split: sum.splits)
  from scan_lines_blocks[OF s] obtain bs ys where
    a: "entries st = map (join '' '') bs" "list_all (\<lambda>b. b \<noteq> []) bs"
       "concat bs @ current_entry st = ys" "subseq ys (nonblank_lines text)"
    unfolding st0_def nonblank_lines_def by auto
  show ?thesis
  proof (cases "current_entry st = []")
    case True
    then show ?thesis using a es by (intro exI[of _ bs]) auto
  next
    case False
    then show ?thesis using a es
      by (intro exI[of _ "bs @ [current_entry st]"]) (auto simp: flush_def)
  qed
qed


lemma lossy_resume_education:
  "extract_education init lossy_resume = Inr [''B.Tech in CS'']"
  by code_simp

lemma lossy_resume_others:
  "nonblank_lines lossy_resume = [''John Doe'', ''Education'', ''B.Tech in CS'']"
  "extract_experience init lossy_resume = Inr []"
  "extract_projects init lossy_resume = Inr []"
  by code_simp+

lemma shared_line_twice:
  "extract_education init shared_line = Inr [shared_line]"
  "extract_experience init shared_line = Inr [shared_line]"
  by code_simp+

subsection \<open>The score of the keyword matchers\<close>




















subsection \<open>The entries of an extractor\<close>

lemma inside_Nil: "\<not> inside others kws []"
  by (simp add: inside_def)

lemma inside_snoc:
  "inside others kws (pre @ [l]) \<longleftrightarrow>
     mentions kws l \<or> (inside others kws pre \<and> \<not> closes others kws l)"
proof
  assume "inside others kws (pre @ [l])"
  then obtain p x q where h: "pre @ [l] = p @ x # q" "mentions kws x"
      "list_all (\<lambda>c. \<not> closes others kws c) q"
    unfolding inside_def by blast
  show "mentions kws l \<or> (inside others kws pre \<and> \<not> closes others kws l)"
  proof (cases q rule: rev_cases)
    case Nil
    with h have "x = l" by simp
    with h show ?thesis by simp
  next
    case (snoc q' y)
    with h(1) have "pre @ [l] = (p @ x # q') @ [y]" by simp
    then have e: "pre = p @ x # q'" "y = l" by simp_all
    from h(3) snoc e have "list_all (\<lambda>c. \<not> closes others kws c) q'" "\<not> closes others kws l"
      by simp_all
    with e h(2) show ?thesis unfolding inside_def by blast
  qed
next
  assume "mentions kws l \<or> (inside others kws pre \<and> \<not> closes others kws l)"
  then show "inside others kws (pre @ [l])"
  proof
    assume "mentions kws l"
    then have "pre @ [l] = pre @ l # [] \<and> mentions kws l \<and>
               list_all (\<lambda>c. \<not> closes others kws c) []" by simp
    then show ?thesis unfolding inside_def by blast
  next
    assume a: "inside others kws pre \<and> \<not> closes others kws l"
    then obtain p x q where h: "pre = p @ x # q" "mentions kws x"
      "list_all (\<lambda>c. \<not> closes others kws c) q"
      unfolding inside_def by blast
    with a have "pre @ [l] = p @ x # (q @ [l]) \<and> mentions kws x \<and>
               list_all (\<lambda>c. \<not> closes others kws c) (q @ [l])" by simp
    then show ?thesis unfolding inside_def by blast
  qed
qed

lemma marks_from_inside:
  "marks_from others kws (inside others kws pre) ls =
     map (\<lambda>i. mark_of others kws (inside others kws (pre @ take i ls)) (ls ! i)) [0..<length ls]"
proof (induction ls arbitrary: pre)
  case Nil
  show ?case by simp
next
  case (Cons l ls)
  have n: "(mentions kws l \<or> (inside others kws pre \<and> \<not> closes others kws l)) =
           inside others kws (pre @ [l])"
    by (simp add: inside_snoc)
  have "map (\<lambda>i. mark_of others kws (inside others kws (pre @ take i (l # ls))) ((l # ls) ! i))
          [0..<length (l # ls)] =
        mark_of others kws (inside others kws pre) l #
        map (\<lambda>i. mark_of others kws (inside others kws ((pre @ [l]) @ take i ls)) (ls ! i))
          [0..<length ls]"
    by (simp add: map_upt_Suc del: upt_Suc)
  then show ?case
    unfolding marks_from.simps n Cons.IH[of "pre @ [l]"] by simp
qed

lemma marks_from_start: "marks_from others kws False ls = marks others kws ls"
  using marks_from_inside[of others kws "[]" ls] by (simp add: inside_Nil marks_def)

lemma runs_nonempty: "runs ms \<noteq> []"
  by (induction ms rule: runs.induct) (auto split: list.splits)

lemma runs_Keep: "runs (Keep l # ms) = (l # hd (runs ms)) # tl (runs ms)"
  using runs_nonempty[of ms] by (cases "runs ms") auto


lemma scan_line_step:
  assumes "resume_keywords self = Inr others"
  shows "\<exists>st1. scan_line self kws l st = Inr st1 \<and>
     in_section st1 = (mentions kws (strip l) \<or> (in_section st \<and> \<not> closes others kws (strip l))) \<and>
     (case mark_of others kws (in_section st) (strip l) of
        Keep x \<Rightarrow> current_entry st1 = current_entry st @ [x] \<and> entries st1 = entries st
      | Boundary \<Rightarrow> current_entry st1 = [] \<and>
          entries st1 = entries st @
            (if current_entry st \<noteq> [] then [join '' '' (current_entry st)] else [])
      | Dropped \<Rightarrow> current_entry st1 = current_entry st \<and> entries st1 = entries st)"
  using assms mentions_empty_header[of kws]
  unfolding scan_line_def Let_def mark_of_def closes_def flush_def
  by (auto split: if_splits)

lemma scan_lines_runs:
  assumes "resume_keywords self = Inr others"
  shows "\<exists>st'. scan_lines self kws ls st = Inr st' \<and>
     finish st' = entries st @ map (join '' '')
       (filter (\<lambda>r. r \<noteq> [])
          ((current_entry st @ hd (runs (marks_from others kws (in_section st) (map strip ls))))
           # tl (runs (marks_from others kws (in_section st) (map strip ls)))))"
proof (induction ls arbitrary: st)
  case Nil
  show ?case by (simp add: finish_def flush_def)
next
  case (Cons l ls)
  define b' where "b' = (mentions kws (strip l) \<or> (in_section st \<and> \<not> closes others kws (strip l)))"
  define R where "R = runs (marks_from others kws b' (map strip ls))"
  from scan_line_step[OF assms, of kws l st] obtain st1 where
    s1: "scan_line self kws l st = Inr st1" and
    f1: "in_section st1 = b'" and
    m1: "(case mark_of others kws (in_section st) (strip l) of
        Keep x \<Rightarrow> current_entry st1 = current_entry st @ [x] \<and> entries st1 = entries st
      | Boundary \<Rightarrow> current_entry st1 = [] \<and>
          entries st1 = entries st @
            (if current_entry st \<noteq> [] then [join '' '' (current_entry st)] else [])
      | Dropped \<Rightarrow> current_entry st1 = current_entry st \<and> entries st1 = entries st)"
    unfolding b'_def by blast
  from Cons.IH[of st1] obtain st' where
    s2: "scan_lines self kws ls st1 = Inr st'" and
    f2: "finish st' = entries st1 @ map (join '' '')
       (filter (\<lambda>r. r \<noteq> []) ((current_entry st1 @ hd R) # tl R))"
    unfolding R_def f1 by blast
  have s: "scan_lines self kws (l # ls) st = Inr st'" using s1 s2 by simp
  have ms: "marks_from others kws (in_section st) (map strip (l # ls)) =
      mark_of others kws (in_section st) (strip l) # marks_from others kws b' (map strip ls)"
    unfolding b'_def by simp
  have Rne: "R \<noteq> []" unfolding R_def by (rule runs_nonempty)
  have "finish st' = entries st @ map (join '' '')
       (filter (\<lambda>r. r \<noteq> [])
          ((current_entry st @ hd (runs (marks_from others kws (in_section st) (map strip (l # ls)))))
           # tl (runs (marks_from others kws (in_section st) (map strip (l # ls))))))"
  proof (cases "mark_of others kws (in_section st) (strip l)")
    case (Keep x)
    with m1 have c: "current_entry st1 = current_entry st @ [x]" "entries st1 = entries st" by simp_all
    show ?thesis
      unfolding ms Keep runs_Keep R_def[symmetric] f2 c by simp
  next
    case Boundary
    with m1 have c: "current_entry st1 = []"
      "entries st1 = entries st @
            (if current_entry st \<noteq> [] then [join '' '' (current_entry st)] else [])" by simp_all
    have hR: "hd R # tl R = R" using Rne by simp
    show ?thesis
      unfolding ms Boundary runs.simps R_def[symmetric] f2 c using hR by simp
  next
    case Dropped
    with m1 have c: "current_entry st1 = current_entry st" "entries st1 = entries st" by simp_all
    show ?thesis
      unfolding ms Dropped runs.simps R_def[symmetric] f2 c by simp
  qed
  with s show ?case by blast
qed

lemma extract_section_assigned:
  assumes "resume_keywords self = Inr others"
  shows "extract_section self kws text = Inr (section_entries others kws text)"
proof -
  define st0 where "st0 = \<lparr>in_section = False, current_entry = [], entries = []\<rparr>"
  define R where "R = runs (marks others kws (map strip (split_on NL text)))"
  from scan_lines_runs[OF assms, of kws "split_on NL text" st0] obtain st' where
    s: "scan_lines self kws (split_on NL text) st0 = Inr st'" and
    f: "finish st' = map (join '' '') (filter (\<lambda>r. r \<noteq> []) (hd R # tl R))"
    unfolding st0_def R_def by (auto simp: marks_from_start)
  have "hd R # tl R = R" using runs_nonempty unfolding R_def by simp
  with f have "finish st' = section_entries others kws text"
    unfolding section_entries_def R_def by simp
  then show ?thesis
    using s unfolding extract_section_def st0_def finish_def by simp
qed

lemma scan_line_unassigned:
  assumes "resume_keywords self = Inl e" "resume_keywords self0 = Inr []"
    and "scan_line self kws l st = Inr st1"
  shows "scan_line self0 kws l st = Inr st1"
  using assms unfolding scan_line_def Let_def mentions_def
  by (auto split: if_splits)

lemma scan_lines_unassigned:
  assumes "resume_keywords self = Inl e" "resume_keywords self0 = Inr []"
    and "scan_lines self kws ls st = Inr st'"
  shows "scan_lines self0 kws ls st = Inr st'"
  using assms(3)
proof (induction ls arbitrary: st)
  case Nil
  then show ?case by simp
next
  case (Cons l ls)
  from Cons.prems obtain st1 where
    s1: "scan_line self kws l st = Inr st1" and s2: "scan_lines self kws ls st1 = Inr st'"
    by (auto split: sum.splits)
  from scan_line_unassigned[OF assms(1,2) s1] Cons.IH[OF s2] show ?case by simp
qed

lemma extract_section_unassigned:
  assumes "resume_keywords self = Inl e" "extract_section self kws text = Inr es"
  shows "es = section_entries [] kws text"
proof -
  define self0 where "self0 = self\<lparr>document_types := Some [(''resume'', [])]\<rparr>"
  have r0: "resume_keywords self0 = Inr []" by (simp add: resume_keywords_def self0_def)
  from assms(2) obtain st where
    s: "scan_lines self kws (split_on NL text)
          \<lparr>in_section = False, current_entry = [], entries = []\<rparr> = Inr st"
    unfolding extract_section_def by (auto split: sum.splits)
  from scan_lines_unassigned[OF assms(1) r0 s]
  have "extract_section self0 kws text = extract_section self kws text"
    using s unfolding extract_section_def by simp
  with extract_section_assigned[OF r0] assms(2) show ?thesis by simp
qed


lemma sectioned_resume_education:
  "extract_education assigned_analyzer sectioned_resume = Inr [''XYZ ABC'', ''DEF'']"
  by code_simp

section \<open>The claims\<close>

subsection \<open>C5: the ATS score\<close>

text \<open>
  Claim C5. For every text the ATS score is 100, less 20 when the text has fewer than 100
  characters, less 15 when none of \<open>experience\<close>, \<open>education\<close>, \<open>skills\<close> occurs
  as a whole word of the lower-cased text, less 10 when some character is outside ASCII,
  and not below 0. A text of 50 characters with none of the three words and one
  character outside ASCII scores 55.
\<close>

theorem ats_score_formula:
  "calculate_ats_score text =
     max 0 (100 - (if length text < 100 then 20 else 0)
                - (if (\<exists>w \<in> set [''experience'', ''education'', ''skills'']. whole_word w (lower text))
                   then 0 else 15)
                - (if (\<exists>c \<in> set text. non_ascii c) then 10 else 0))
   \<and> (length text = 50 \<and>
       \<not> (\<exists>w \<in> set [''experience'', ''education'', ''skills'']. whole_word w (lower text)) \<and>
       length (filter non_ascii text) = 1
       \<longrightarrow> calculate_ats_score text = 55)"
proof -
  have f: "length (filter non_ascii text) = 1 \<Longrightarrow> \<exists>c \<in> set text. non_ascii c"
    by (metis filter_False length_0_conv zero_neq_one)
  show ?thesis
    unfolding ats_unfold search_words_whole[OF ats_alts] list_ex_iff
    using f by auto
qed

theorem ats_score_formula_witness:
  "length sample_short_text = 50 \<and> length (filter non_ascii sample_short_text) = 1 \<and>
   \<not> search_words [''experience'', ''education'', ''skills''] (lower sample_short_text) \<and>
   calculate_ats_score sample_short_text = 55"
proof -
  have a: "length sample_short_text = 50" by code_simp
  have b: "length (filter non_ascii sample_short_text) = 1" by code_simp
  have c: "\<not> search_words [''experience'', ''education'', ''skills''] (lower sample_short_text)"
    by code_simp
  from c have d: "\<not> (\<exists>w \<in> set [''experience'', ''education'', ''skills'']. whole_word w (lower sample_short_text))"
    unfolding search_words_whole[OF ats_alts] .
  from ats_score_formula[of sample_short_text] a b d
  have "calculate_ats_score sample_short_text = 55" by blast
  with a b c show ?thesis by blast
qed

subsection \<open>C7: the suggestions\<close>

text \<open>
  Claim C7. For every text the suggestions are those of the four rules that fire, in
  the order of the rules (too short under 200 characters, no experience word, no
  education word, no skills word), none of them twice and none left out. A text under
  200 characters with none of the words yields the four suggestions, each non-empty.
\<close>

theorem suggestions_in_rule_order:
  "generate_suggestions text =
     (if length text < 200 then [too_short_msg] else []) @
     (if (\<exists>w \<in> set [''experience'', ''work'', ''job'']. whole_word w (lower text))
      then [] else [no_experience_msg]) @
     (if (\<exists>w \<in> set [''education'', ''university'', ''college'', ''school'']. whole_word w (lower text))
      then [] else [no_education_msg]) @
     (if (\<exists>w \<in> set [''skills'', ''expertise'', ''competencies'']. whole_word w (lower text))
      then [] else [no_skills_msg])
   \<and> distinct (generate_suggestions text)
   \<and> (length text < 200 \<and>
       \<not> (\<exists>w \<in> set [''experience'', ''work'', ''job'']. whole_word w (lower text)) \<and>
       \<not> (\<exists>w \<in> set [''education'', ''university'', ''college'', ''school'']. whole_word w (lower text)) \<and>
       \<not> (\<exists>w \<in> set [''skills'', ''expertise'', ''competencies'']. whole_word w (lower text))
       \<longrightarrow> generate_suggestions text =
             [too_short_msg, no_experience_msg, no_education_msg, no_skills_msg] \<and>
           length (generate_suggestions text) = 4 \<and>
           list_all (\<lambda>s. s \<noteq> []) (generate_suggestions text))"
proof -
  have d: "distinct (generate_suggestions text)"
    using msgs_distinct unfolding suggestions_unfold by auto
  show ?thesis
    using d msgs_nonempty
    unfolding suggestions_unfold search_words_whole[OF exp_alts]
      search_words_whole[OF edu_alts] search_words_whole[OF skl_alts]
    by simp
qed

theorem suggestions_in_rule_order_witness:
  "length ''Jane Roe, plumber'' < 200 \<and>
   generate_suggestions ''Jane Roe, plumber'' =
     [too_short_msg, no_experience_msg, no_education_msg, no_skills_msg]"
proof -
  have a: "length ''Jane Roe, plumber'' < 200" by simp
  have "\<not> search_words [''experience'', ''work'', ''job''] (lower ''Jane Roe, plumber'')"
    by code_simp
  then have b: "\<not> (\<exists>w \<in> set [''experience'', ''work'', ''job'']. whole_word w (lower ''Jane Roe, plumber''))"
    unfolding search_words_whole[OF exp_alts] .
  have "\<not> search_words [''education'', ''university'', ''college'', ''school''] (lower ''Jane Roe, plumber'')"
    by code_simp
  then have c: "\<not> (\<exists>w \<in> set [''education'', ''university'', ''college'', ''school'']. whole_word w (lower ''Jane Roe, plumber''))"
    unfolding search_words_whole[OF edu_alts] .
  have "\<not> search_words [''skills'', ''expertise'', ''competencies''] (lower ''Jane Roe, plumber'')"
    by code_simp
  then have d: "\<not> (\<exists>w \<in> set [''skills'', ''expertise'', ''competencies'']. whole_word w (lower ''Jane Roe, plumber''))"
    unfolding search_words_whole[OF skl_alts] .
  from suggestions_in_rule_order[of "''Jane Roe, plumber''"] a b c d
  have "generate_suggestions ''Jane Roe, plumber'' =
     [too_short_msg, no_experience_msg, no_education_msg, no_skills_msg]" by blast
  with a show ?thesis by blast
qed


subsection \<open>C6: the section score\<close>

text \<open>
  Claim C6. For every text the section score of the analyzer built by \<open>__init__\<close> is
  the number of its five sections (education, experience, skills, projects, summary)
  one of whose keywords occurs in the lower-cased text, times 100, divided by five as
  an integer. A document that is the single line \<open>Education: B.Tech, XYZ University\<close>
  scores 20.
\<close>

theorem section_score_formula:
  "calculate_section_score init text =
     Inr (int (card {s \<in> set (sections init). \<exists>k \<in> set (snd s). sublist k (lower text)})
            * 100 div 5)
   \<and> map fst (sections init) = [''education'', ''experience'', ''skills'', ''projects'', ''summary'']"
proof -
  have "20 * int n = int n * 100 div 5" for n by simp
  then show ?thesis
    unfolding section_score_init sections_found_card using init_section_names by simp
qed


theorem section_score_formula_witness:
  "calculate_section_score init education_line = Inr 20 \<and>
   card {s \<in> set (sections init). \<exists>k \<in> set (snd s). sublist k (lower education_line)} = 1"
proof -
  define n where "n = card {s \<in> set (sections init). \<exists>k \<in> set (snd s). sublist k (lower education_line)}"
  have a: "calculate_section_score init education_line = Inr 20"
    by code_simp
  have "calculate_section_score init education_line = Inr (int n * 100 div 5)"
    using section_score_formula[of education_line] unfolding n_def by (rule conjunct1)
  with a have "int n * 100 div 5 = 20" by simp
  then have "n = 1" by linarith
  with a show ?thesis unfolding n_def by blast
qed


subsection \<open>C1: the validation of the input\<close>

text \<open>
  Claim C1 says that a text that is empty or has only whitespace is refused. The check
  of \<open>analyze_resume\<close> is \<open>if not text\<close>, which only the empty string fails: a text
  of three spaces is analysed like any other text.
\<close>

theorem whitespace_text_is_analysed:
  "list_all is_space blank_text \<and> blank_text \<noteq> [] \<and>
   analyze_resume init [(''raw_text'', PStr blank_text)] None =
     analysis_of blank_text 0 [(''score'', PInt 0), (''missing_skills'', PList [])] \<and>
   \<not> has_key (analyze_resume init [(''raw_text'', PStr blank_text)] None) ''error''"
  by code_simp

text \<open>
  Claim C1, as amended. For the empty text (also when \<open>raw_text\<close> is missing)
  \<open>analyze_resume\<close> reports the error \<open>No text content found in resume\<close>; for every
  non-empty text, whitespace included, the analyzer built by \<open>__init__\<close> runs all
  scorers and returns their results, with no error.
\<close>

theorem analyze_resume_validation:
  "(dict_get rd ''raw_text'' (PStr []) = PStr [] \<longrightarrow>
      analyze_resume self rd jr = no_text_error \<and> has_key (analyze_resume self rd jr) ''error'')
   \<and> (dict_get rd ''raw_text'' (PStr []) = PStr s \<and> s \<noteq> [] \<longrightarrow>
      (\<exists>sec km. calculate_section_score init s = Inr sec \<and>
                analyze_keyword_match s jr = Inr km \<and>
                analyze_resume init rd jr = analysis_of s sec km) \<and>
      \<not> has_key (analyze_resume init rd jr) ''error'')"
proof -
  have a: "analyze_resume self rd jr = no_text_error \<and> has_key (analyze_resume self rd jr) ''error''"
    if "dict_get rd ''raw_text'' (PStr []) = PStr []"
    using that analyze_resume_empty[of rd self jr] by (simp add: no_text_error_has_error)
  have b: "(\<exists>sec km. calculate_section_score init s = Inr sec \<and>
                analyze_keyword_match s jr = Inr km \<and>
                analyze_resume init rd jr = analysis_of s sec km) \<and>
      \<not> has_key (analyze_resume init rd jr) ''error''"
    if h: "dict_get rd ''raw_text'' (PStr []) = PStr s" "s \<noteq> []"
    using analyze_resume_nonempty[OF h, of jr] analysis_of_no_error by auto
  show ?thesis using a b by blast
qed

theorem analyze_resume_validation_witness:
  "analyze_resume init [(''raw_text'', PStr [])] None = no_text_error \<and>
   analyze_resume init [] None = no_text_error \<and>
   \<not> has_key (analyze_resume init [(''raw_text'', PStr ''Jane Roe, plumber'')] None) ''error''"
proof -
  have a: "dict_get [(''raw_text'', PStr [])] ''raw_text'' (PStr []) = PStr []"
    by (simp add: dict_get_def)
  have b: "dict_get [] ''raw_text'' (PStr []) = PStr []"
    by (simp add: dict_get_def)
  have c: "dict_get [(''raw_text'', PStr ''Jane Roe, plumber'')] ''raw_text'' (PStr []) = PStr ''Jane Roe, plumber'' \<and> ''Jane Roe, plumber'' \<noteq> []"
    by (simp add: dict_get_def)
  from analyze_resume_validation[where rd = "[(''raw_text'', PStr [])]" and self = init and jr = None] a
  have 1: "analyze_resume init [(''raw_text'', PStr [])] None = no_text_error" by blast
  from analyze_resume_validation[where rd = "[]" and self = init and jr = None] b
  have 2: "analyze_resume init [] None = no_text_error" by blast
  from analyze_resume_validation[where rd = "[(''raw_text'', PStr ''Jane Roe, plumber'')]"
      and s = "''Jane Roe, plumber''" and jr = None and self = init] c
  have 3: "\<not> has_key (analyze_resume init [(''raw_text'', PStr ''Jane Roe, plumber'')] None) ''error''" by blast
  from 1 2 3 show ?thesis by blast
qed


subsection \<open>C9: the range of the scores\<close>

text \<open>
  Claim C9. For every non-empty text and every job requirements, the ATS score, the
  format score, the section score and the score of the keyword match in the result of
  \<open>analyze_resume\<close> are integers from 0 to 100.
\<close>

theorem scores_in_range:
  assumes "dict_get rd ''raw_text'' (PStr []) = PStr s" "s \<noteq> []"
  shows "\<exists>a f c km k.
           int_at (analyze_resume init rd jr) ''ats_score'' = Some a \<and> 0 \<le> a \<and> a \<le> 100 \<and>
           int_at (analyze_resume init rd jr) ''format_score'' = Some f \<and> 0 \<le> f \<and> f \<le> 100 \<and>
           int_at (analyze_resume init rd jr) ''section_score'' = Some c \<and> 0 \<le> c \<and> c \<le> 100 \<and>
           map_of (analyze_resume init rd jr) ''keyword_match'' = Some (PDict km) \<and>
           int_at km ''score'' = Some k \<and> 0 \<le> k \<and> k \<le> 100"
proof -
  from analyze_resume_nonempty[OF assms, of jr] obtain sec km where
    sec: "calculate_section_score init s = Inr sec" and
    km: "analyze_keyword_match s jr = Inr km" and
    res: "analyze_resume init rd jr = analysis_of s sec km" by blast
  from keyword_match_score_range[OF km] obtain k where
    k: "int_at km ''score'' = Some k" "0 \<le> k" "k \<le> 100" by blast
  have 1: "int_at (analyze_resume init rd jr) ''ats_score'' = Some (calculate_ats_score s)"
    unfolding res by (simp add: int_at_def analysis_of_def)
  have 2: "int_at (analyze_resume init rd jr) ''format_score'' = Some (calculate_format_score s)"
    unfolding res by (simp add: int_at_def analysis_of_def)
  have 3: "int_at (analyze_resume init rd jr) ''section_score'' = Some sec"
    unfolding res by (simp add: int_at_def analysis_of_def)
  have 4: "map_of (analyze_resume init rd jr) ''keyword_match'' = Some (PDict km)"
    unfolding res by (simp add: analysis_of_def)
  show ?thesis
    using 1 2 3 4 k ats_score_range[of s] format_score_range[of s] section_score_range[OF sec]
    by blast
qed

theorem scores_in_range_witness:
  "\<exists>a f c km k.
     int_at (analyze_resume init python_resume (Some python_job)) ''ats_score'' = Some a \<and> 0 \<le> a \<and> a \<le> 100 \<and>
     int_at (analyze_resume init python_resume (Some python_job)) ''format_score'' = Some f \<and> 0 \<le> f \<and> f \<le> 100 \<and>
     int_at (analyze_resume init python_resume (Some python_job)) ''section_score'' = Some c \<and> 0 \<le> c \<and> c \<le> 100 \<and>
     map_of (analyze_resume init python_resume (Some python_job)) ''keyword_match'' = Some (PDict km) \<and>
     int_at km ''score'' = Some k \<and> 0 \<le> k \<and> k \<le> 100"
proof -
  have a: "dict_get python_resume ''raw_text'' (PStr []) = PStr ''Experienced in Python development''"
    by (simp add: dict_get_def python_resume_def)
  have b: "''Experienced in Python development'' \<noteq> []" by simp
  show ?thesis by (rule scores_in_range[OF a b])
qed


subsection \<open>C10: the facade returns a dictionary\<close>

text \<open>
  Claim C10. For every input \<open>analyze_resume\<close> returns a dictionary: when the body of
  its \<open>try\<close> block raises an exception the result is the dictionary with the key
  \<open>error\<close> and the message of the exception, when the text is empty (or any other
  false object) it is the dictionary with the key \<open>error\<close> and the message
  \<open>No text content found in resume\<close>, and the key \<open>error\<close> is there in these
  two cases only.
\<close>

theorem analyze_resume_never_raises:
  "(has_key (analyze_resume self rd jr) ''error'' \<longleftrightarrow>
      \<not> truthy (dict_get rd ''raw_text'' (PStr [])) \<or> (\<exists>e. analyze_body self rd jr = Inl e))
   \<and> (\<forall>e. analyze_body self rd jr = Inl e \<longrightarrow>
        analyze_resume self rd jr = [(''error'', PStr (''Error analyzing resume: '' @ exn_str e))])
   \<and> (\<not> truthy (dict_get rd ''raw_text'' (PStr [])) \<longrightarrow> analyze_resume self rd jr = no_text_error)"
proof -
  have a: "analyze_resume self rd jr = [(''error'', PStr (''Error analyzing resume: '' @ exn_str e))]"
    if "analyze_body self rd jr = Inl e" for e
    using that by (simp add: analyze_resume_def)
  have b: "analyze_resume self rd jr = no_text_error"
    if "\<not> truthy (dict_get rd ''raw_text'' (PStr []))"
    using that by (rule analyze_resume_empty)
  have c: "\<not> has_key (analyze_resume self rd jr) ''error''"
    if t: "truthy (dict_get rd ''raw_text'' (PStr []))" and n: "\<forall>e. analyze_body self rd jr \<noteq> Inl e"
  proof -
    from analyze_body_cases[of self rd jr] t n
    obtain s sec km where "analyze_body self rd jr = Inr (analysis_of s sec km)" by blast
    then show ?thesis by (simp add: analyze_resume_def analysis_of_no_error)
  qed
  have d: "has_key (analyze_resume self rd jr) ''error''"
    if "\<not> truthy (dict_get rd ''raw_text'' (PStr [])) \<or> (\<exists>e. analyze_body self rd jr = Inl e)"
    using that a b no_text_error_has_error by (auto simp: has_key_def)
  show ?thesis using a b c d by blast
qed

theorem analyze_resume_never_raises_witness:
  "analyze_body init [(''raw_text'', PInt 5)] None = Inl (NoLenTypeError ''int'') \<and>
   analyze_resume init [(''raw_text'', PInt 5)] None =
     [(''error'', PStr (''Error analyzing resume: '' @ exn_str (NoLenTypeError ''int'')))] \<and>
   has_key (analyze_resume init [(''raw_text'', PInt 5)] None) ''error'' \<and>
   analyze_resume init [(''raw_text'', PNone)] None = no_text_error"
proof -
  have a: "analyze_body init [(''raw_text'', PInt 5)] None = Inl (NoLenTypeError ''int'')"
    by (simp add: analyze_body_def dict_get_def)
  have b: "\<not> truthy (dict_get [(''raw_text'', PNone)] ''raw_text'' (PStr []))"
    by (simp add: dict_get_def)
  from analyze_resume_never_raises[of init "[(''raw_text'', PInt 5)]" None] a
  have 1: "analyze_resume init [(''raw_text'', PInt 5)] None =
     [(''error'', PStr (''Error analyzing resume: '' @ exn_str (NoLenTypeError ''int'')))]"
    and 2: "has_key (analyze_resume init [(''raw_text'', PInt 5)] None) ''error''" by blast+
  from analyze_resume_never_raises[of init "[(''raw_text'', PNone)]" None] b
  have 3: "analyze_resume init [(''raw_text'', PNone)] None = no_text_error" by blast
  from a 1 2 3 show ?thesis by blast
qed

subsection \<open>C8: the keyword match without job requirements\<close>

text \<open>
  Claim C8 says that without job requirements the keyword match has score 0, no missing
  skills and an empty set of found skills. The early return of
  \<open>_analyze_keyword_match\<close> gives the score 0 and the empty list of missing skills,
  and no key \<open>found_skills\<close> at all; the other return of the same function has the
  key, also for an empty list of required skills.
\<close>

theorem keyword_match_without_requirements:
  "analyze_keyword_match text None = Inr [(''score'', PInt 0), (''missing_skills'', PList [])] \<and>
   \<not> has_key [(''score'', PInt 0), (''missing_skills'', PList [])] ''found_skills'' \<and>
   (\<exists>km. analyze_keyword_match text (Some [(''required_skills'', [])]) = Inr km \<and>
         has_key km ''found_skills'')"
  by (simp add: analyze_keyword_match_def has_key_def dict_get_def Let_def)

subsection \<open>C4: the heuristics are total\<close>

text \<open>
  Claim C4 says that no scorer and no extractor raises. \<open>__init__\<close> assigns neither
  \<open>self.document_types\<close> nor \<open>self.essential_sections\<close>: \<open>extract_education\<close>
  raises \<open>AttributeError\<close> on the two lines \<open>Education\<close>, \<open>XYZ\<close>, and
  \<open>check_resume_sections\<close> raises it on every text.
\<close>

theorem extractors_raise:
  "extract_education init unmatched_resume = Inl (AttributeError ''ResumeAnalyzer'' ''document_types'') \<and>
   check_resume_sections init text = Inl (AttributeError ''ResumeAnalyzer'' ''essential_sections'')"
  using check_resume_sections_init extract_education_unmatched by simp


subsection \<open>C2: the keyword match\<close>






subsection \<open>C3: the extracted blocks and the lines of the document\<close>

text \<open>
  Claim C3 says that the blocks partition the lines of the document. The extractors
  keep no residual block: of the three lines \<open>John Doe\<close>, \<open>Education\<close>,
  \<open>B.Tech in CS\<close> only the last one is in an entry of any of the three extractors.
  A line can also go to two sections: \<open>University work experience at X\<close> is an entry
  of the education and of the experience extractor.
\<close>

theorem extraction_is_not_a_partition:
  "nonblank_lines lossy_resume = [''John Doe'', ''Education'', ''B.Tech in CS''] \<and>
   extract_education init lossy_resume = Inr [''B.Tech in CS''] \<and>
   extract_experience init lossy_resume = Inr [] \<and>
   extract_projects init lossy_resume = Inr [] \<and>
   extract_education init shared_line = Inr [shared_line] \<and>
   extract_experience init shared_line = Inr [shared_line]"
  using lossy_resume_education lossy_resume_others shared_line_twice by simp

text \<open>
  Claim C3, as amended. Each of \<open>extract_education\<close>, \<open>extract_experience\<close> and
  \<open>extract_projects\<close> scans the stripped lines of the document on its own, with its
  keyword list and the keywords of \<open>self.document_types['resume']\<close>. A line that
  mentions one of its keywords opens the section and is kept unless it is a keyword
  itself. While the section is open, a line that mentions none of its keywords is kept
  when it is not blank and mentions no keyword of the other list; a blank line ends the
  current block; a line that mentions a keyword of the other list ends the block and
  closes the section. Every other line is dropped: there is no residual block. The
  entries are exactly the non-empty runs of kept lines between the ends of blocks, in
  the order of the document, each joined by single spaces. When \<open>document_types\<close> was
  never assigned and the extractor returns, its entries are these for an empty other
  list. In every case the lines of the entries are a subsequence of the stripped
  non-blank lines of the document.
\<close>

theorem extraction_entries_are_document_lines:
  assumes "(extract, kws) = (extract_education, education_keywords) \<or>
           (extract, kws) = (extract_experience, experience_keywords) \<or>
           (extract, kws) = (extract_projects, project_keywords)"
  shows "(resume_keywords self = Inr others \<longrightarrow>
            extract self text = Inr (section_entries others kws text))
       \<and> (resume_keywords self = Inl e \<and> extract self text = Inr es \<longrightarrow>
            es = section_entries [] kws text)
       \<and> (extract self text = Inr es \<longrightarrow>
            (\<exists>blocks. es = map (join '' '') blocks \<and> list_all (\<lambda>b. b \<noteq> []) blocks \<and>
                      subseq (concat blocks) (nonblank_lines text)))"
proof -
  have x: "extract self text = extract_section self kws text"
    using assms
    unfolding extract_education_def extract_experience_def extract_projects_def
    by (auto simp: fun_eq_iff)
  show ?thesis
    unfolding x
    using extract_section_assigned extract_section_unassigned extract_section_blocks
    by blast
qed

theorem extraction_entries_are_document_lines_witness:
  "extract_education assigned_analyzer sectioned_resume = Inr [''XYZ ABC'', ''DEF''] \<and>
   section_entries [''experience'', ''skills''] education_keywords sectioned_resume =
     [''XYZ ABC'', ''DEF''] \<and>
   section_entries [] education_keywords lossy_resume = [''B.Tech in CS'']"
proof -
  have a: "(extract_education, education_keywords) = (extract_education, education_keywords) \<or>
           (extract_education, education_keywords) = (extract_experience, experience_keywords) \<or>
           (extract_education, education_keywords) = (extract_projects, project_keywords)"
    by simp
  have r: "resume_keywords assigned_analyzer = Inr [''experience'', ''skills'']"
    by (simp add: resume_keywords_def assigned_analyzer_def)
  have u: "resume_keywords init = Inl (AttributeError ''ResumeAnalyzer'' ''document_types'')"
    by (simp add: resume_keywords_def init_def)
  from extraction_entries_are_document_lines[OF a, where self = assigned_analyzer
      and others = "[''experience'', ''skills'']" and ?text = sectioned_resume] r
  have "extract_education assigned_analyzer sectioned_resume =
          Inr (section_entries [''experience'', ''skills''] education_keywords sectioned_resume)"
    by blast
  then have 1: "section_entries [''experience'', ''skills''] education_keywords sectioned_resume =
     [''XYZ ABC'', ''DEF'']"
    unfolding sectioned_resume_education by simp
  from extraction_entries_are_document_lines[OF a, where self = init
      and e = "AttributeError ''ResumeAnalyzer'' ''document_types''"
      and ?text = lossy_resume and es = "[''B.Tech in CS'']"] u lossy_resume_education
  have 2: "section_entries [] education_keywords lossy_resume = [''B.Tech in CS'']"
    by simp
  from sectioned_resume_education 1 2 show ?thesis by (intro conjI)
qed


end
